theory Spec2Isabelle
  imports Complex_Main "HOL-Library.Product_Lexorder"
begin

section \<open>Python strings\<close>

text \<open>
  Python \<open>str\<close> values are modelled as \<open>string\<close> (lists of 8-bit characters), so the
  model covers ASCII text: \<open>isupper\<close>, \<open>islower\<close> and the white space removed by
  \<open>strip\<close> are Python's classes restricted to code points below 128.
\<close>

definition isupper :: "char \<Rightarrow> bool" where
  "isupper c = (65 \<le> (of_char c :: nat) \<and> (of_char c :: nat) \<le> 90)"

definition islower :: "char \<Rightarrow> bool" where
  "islower c = (97 \<le> (of_char c :: nat) \<and> (of_char c :: nat) \<le> 122)"

definition isspace :: "char \<Rightarrow> bool" where
  "isspace c = ((9 \<le> (of_char c :: nat) \<and> (of_char c :: nat) \<le> 13)
              \<or> (28 \<le> (of_char c :: nat) \<and> (of_char c :: nat) \<le> 32))"

definition lstrip :: "string \<Rightarrow> string" where
  "lstrip s = dropWhile isspace s"

definition rstrip :: "string \<Rightarrow> string" where
  "rstrip s = rev (dropWhile isspace (rev s))"

definition strip :: "string \<Rightarrow> string" where
  "strip s = rstrip (lstrip s)"

definition startswith :: "string \<Rightarrow> string \<Rightarrow> bool" where
  "startswith s p = (take (length p) s = p)"

text \<open>
  \<open>s.replace(old, new)\<close>: every non-overlapping occurrence of \<open>old\<close>, found from the
  left, is replaced; an empty \<open>old\<close> matches before every character and at the end.
\<close>

function str_replace :: "string \<Rightarrow> string \<Rightarrow> string \<Rightarrow> string" where
  "str_replace old new s =
     (if old = [] then new @ concat (map (\<lambda>c. c # new) s)
      else if s = [] then []
      else if startswith s old then new @ str_replace old new (drop (length old) s)
      else hd s # str_replace old new (tl s))"
  by pat_completeness auto
termination
  by (relation "measure (\<lambda>(old, new, s). length s)") auto

declare str_replace.simps [simp del]

section \<open>Font mapping (app/services/font\_mapper.py)\<close>

definition FONT_SUBSTITUTION :: "(string \<times> string) list" where
  "FONT_SUBSTITUTION =
    [(''UTM Avo'', ''Arial''),
     (''UTM Times'', ''Times New Roman''),
     (''VNI-Times'', ''Times New Roman''),
     (''VNI-Helve'', ''Arial''),
     (''.VnTime'', ''Times New Roman''),
     (''.VnArial'', ''Arial''),
     (''Helvetica'', ''Arial''),
     (''Helvetica Neue'', ''Arial''),
     (''SF Pro'', ''Segoe UI''),
     (''SF Pro Display'', ''Segoe UI''),
     (''Roboto'', ''Arial''),
     (''Open Sans'', ''Arial''),
     (''Lato'', ''Arial''),
     (''Georgia'', ''Times New Roman''),
     (''Palatino'', ''Times New Roman''),
     (''Cambria'', ''Times New Roman''),
     (''Courier'', ''Courier New''),
     (''Monaco'', ''Courier New''),
     (''Consolas'', ''Courier New'')]"

definition WEB_SAFE_FONTS :: "string list" where
  "WEB_SAFE_FONTS =
    [''Arial'', ''Times New Roman'', ''Courier New'', ''Verdana'', ''Georgia'',
     ''Comic Sans MS'', ''Trebuchet MS'', ''Arial Black'', ''Impact'']"

text \<open>
  The loop of \<open>_clean_font_name\<close> over \<open>enumerate(font_name)\<close>: a space is put before
  an upper-case character that follows a lower-case one. The first argument is the
  preceding character \<open>font_name[i-1]\<close>, absent at \<open>i = 0\<close>.
\<close>

fun camel_case_spaces :: "char option \<Rightarrow> string \<Rightarrow> string" where
  "camel_case_spaces prev [] = []"
| "camel_case_spaces prev (c # cs) =
     (if (case prev of None \<Rightarrow> False | Some p \<Rightarrow> isupper c \<and> islower p)
      then CHR '' '' # c # camel_case_spaces (Some c) cs
      else c # camel_case_spaces (Some c) cs)"

definition clean_font_name :: "string \<Rightarrow> string" where
  "clean_font_name font_name =
     strip (camel_case_spaces None
       (foldl (\<lambda>name suffix. str_replace suffix [] name) font_name
          [''-Bold'', ''-Italic'', ''-BoldItalic'', ''-Regular'', ''MT'']))"

definition map_font :: "string \<Rightarrow> string" where
  "map_font pdf_font_name =
     (let clean_name = clean_font_name pdf_font_name in
      if clean_name \<in> set WEB_SAFE_FONTS then clean_name
      else (case map_of FONT_SUBSTITUTION clean_name of
              Some v \<Rightarrow> v
            | None \<Rightarrow> ''Arial''))"

record font_info =
  original :: string
  cleaned :: string
  mapped :: string
  reason :: string

definition get_font_info :: "string \<Rightarrow> font_info" where
  "get_font_info pdf_font_name =
     (let mapped = map_font pdf_font_name;
          clean_original = clean_font_name pdf_font_name;
          reason = (if clean_original = mapped then ''web-safe''
                    else if clean_original \<in> fst ` set FONT_SUBSTITUTION then ''substituted''
                    else ''fallback'')
      in \<lparr>original = pdf_font_name, cleaned = clean_original, mapped = mapped,
          reason = reason\<rparr>)"

section \<open>Python values shared by the services\<close>

text \<open>
  Exceptions are values. \<open>DoesNotReturn\<close> is not an exception: it marks a library call
  that loops forever (see \<open>fitz_getitem\<close>), and no \<open>except\<close> clause catches it.

  Python \<open>float\<close> values (coordinates, font sizes, image scale factors) are modelled as
  \<open>real\<close>, so arithmetic on them is exact, without the rounding of IEEE doubles and
  without their overflow; \<open>int(x)\<close> truncates towards zero. \<open>print\<close> calls are left out.
\<close>

datatype py_error =
  IndexError | ValueError | ImportError | RuntimeError | OtherError string | DoesNotReturn

type_synonym bytes = string

definition py_int :: "real \<Rightarrow> int" where
  "py_int x = (if 0 \<le> x then \<lfloor>x\<rfloor> else \<lceil>x\<rceil>)"

text \<open>
  Subscription \<open>xs[i]\<close> of a Python list of length \<open>n\<close>: the indices from \<open>-n\<close> to
  \<open>-1\<close> name the elements \<open>0\<close> to \<open>n - 1\<close> again; every other index outside \<open>0..n-1\<close>
  raises.
\<close>

definition py_getitem :: "'a list \<Rightarrow> int \<Rightarrow> py_error + 'a" where
  "py_getitem xs i =
     (if 0 \<le> i \<and> i < int (length xs) then Inr (xs ! nat i)
      else if i < 0 \<and> - int (length xs) \<le> i then Inr (xs ! nat (int (length xs) + i))
      else Inl IndexError)"

text \<open>
  \<open>max(xs, key=f)\<close> on a non-empty list \<open>best # xs\<close>: the first element whose key is
  maximal.
\<close>

fun py_max_key :: "('a \<Rightarrow> int) \<Rightarrow> 'a \<Rightarrow> 'a list \<Rightarrow> 'a" where
  "py_max_key f best [] = best"
| "py_max_key f best (x # xs) = py_max_key f (if f best < f x then x else best) xs"

text \<open>\<open>s.split(sep)\<close> for a separator of one character; \<open>cur\<close> is the field being read.\<close>

fun split_acc :: "char \<Rightarrow> string \<Rightarrow> string \<Rightarrow> string list" where
  "split_acc sep cur [] = [rev cur]"
| "split_acc sep cur (c # cs) =
     (if c = sep then rev cur # split_acc sep [] cs else split_acc sep (c # cur) cs)"

definition split :: "string \<Rightarrow> char \<Rightarrow> string list" where
  "split s sep = split_acc sep [] s"

text \<open>\<open>sep.join(parts)\<close>.\<close>

fun join :: "string \<Rightarrow> string list \<Rightarrow> string" where
  "join sep [] = []"
| "join sep [p] = p"
| "join sep (p # q # ps) = p @ sep @ join sep (q # ps)"

section \<open>Extracted content (dataclasses of app/services/pdf\_processor.py)\<close>

record PDFTextBlock =
  "text" :: string
  x0 :: real
  y0 :: real
  x1 :: real
  y1 :: real
  font_name :: string
  font_size :: real

record PDFImage =
  data :: bytes
  width :: int
  height :: int
  dpi :: int
  format :: string
  position :: "real \<times> real \<times> real \<times> real"

section \<open>OCR (app/services/ocr\_processor.py)\<close>

text \<open>
  Modelled from the spec: the \<open>PDFTextBlock\<close> that ocr\_processor.py imports from
  app.models.schemas is not declared in that module. The spec's TextRun has the fields of
  the dataclass above and a \<open>page_number\<close>, which are the keyword arguments the OCR code
  passes; the field is called \<open>ocr_page_number\<close> here.
\<close>

record OCRTextBlock = PDFTextBlock +
  ocr_page_number :: int

text \<open>A PIL image, as far as the code reads it: \<open>image.mode\<close> and \<open>image.size\<close>.\<close>

record Image =
  im_mode :: string
  im_size :: "int \<times> int"

definition im_width :: "Image \<Rightarrow> int" where
  "im_width img = fst (im_size img)"

definition im_height :: "Image \<Rightarrow> int" where
  "im_height img = snd (im_size img)"

text \<open>
  The calls into PIL and pytesseract whose outcome depends on the image bytes and on the
  installed Tesseract; each may raise.
\<close>

record tesseract =
  get_tesseract_version :: "py_error + string"
  Image_open :: "bytes \<Rightarrow> py_error + Image"
  image_to_string :: "Image \<Rightarrow> string \<Rightarrow> string \<Rightarrow> py_error + string"
  image_to_osd :: "Image \<Rightarrow> py_error + string"

text \<open>\<open>image.convert('L')\<close> keeps the size; \<open>image.resize\<close> refuses an empty size.\<close>

definition convert :: "Image \<Rightarrow> string \<Rightarrow> Image" where
  "convert img m = img\<lparr>im_mode := m\<rparr>"

definition resize :: "Image \<Rightarrow> int \<times> int \<Rightarrow> py_error + Image" where
  "resize img new_size =
     (if fst new_size < 1 \<or> snd new_size < 1 then Inl ValueError
      else Inr (img\<lparr>im_size := new_size\<rparr>))"

record OCRProcessor =
  languages :: "string list"
  lang_string :: string

definition OCRProcessor_init ::
  "bool \<Rightarrow> tesseract \<Rightarrow> string list option \<Rightarrow> py_error + OCRProcessor" where
  "OCRProcessor_init TESSERACT_AVAILABLE tess langs =
     (if \<not> TESSERACT_AVAILABLE then Inl ImportError
      else (let languages = (case langs of
                               None \<Rightarrow> [''chi_sim'', ''eng'']
                             | Some l \<Rightarrow> (if l = [] then [''chi_sim'', ''eng''] else l))
            in (case get_tesseract_version tess of
                  Inl e \<Rightarrow> Inl RuntimeError
                | Inr v \<Rightarrow> Inr \<lparr>languages = languages, lang_string = join ''+'' languages\<rparr>)))"

definition preprocess_image :: "Image \<Rightarrow> py_error + Image" where
  "preprocess_image img0 =
     (let img = (if im_mode img0 \<noteq> ''L'' then convert img0 ''L'' else img0);
          max_dimension = 4000
      in if max (im_width img) (im_height img) > max_dimension
         then (let ratio = real_of_int max_dimension
                             / real_of_int (max (im_width img) (im_height img));
                   new_size = (py_int (real_of_int (im_width img) * ratio),
                               py_int (real_of_int (im_height img) * ratio))
               in resize img new_size)
         else Inr img)"

text \<open>
  The body of the \<open>try\<close> block of \<open>extract_text_from_image\<close>; the function itself turns
  every exception into the empty list.
\<close>

definition extract_text_from_image_try ::
  "tesseract \<Rightarrow> OCRProcessor \<Rightarrow> bytes \<Rightarrow> int \<Rightarrow> py_error + OCRTextBlock list" where
  "extract_text_from_image_try tess self image_data page_number =
     (case Image_open tess image_data of
        Inl e \<Rightarrow> Inl e
      | Inr img0 \<Rightarrow>
          (case preprocess_image img0 of
             Inl e \<Rightarrow> Inl e
           | Inr img \<Rightarrow>
               (case image_to_string tess img (lang_string self) ''--psm 6'' of
                  Inl e \<Rightarrow> Inl e
                | Inr txt \<Rightarrow>
                    (if strip txt = [] then Inr []
                     else Inr [\<lparr>text = strip txt,
                                x0 = 0,
                                y0 = 0,
                                x1 = real_of_int (im_width img),
                                y1 = real_of_int (im_height img),
                                font_name = ''OCR-Result'',
                                font_size = 12,
                                ocr_page_number = page_number\<rparr>]))))"

definition extract_text_from_image ::
  "tesseract \<Rightarrow> OCRProcessor \<Rightarrow> bytes \<Rightarrow> int \<Rightarrow> OCRTextBlock list" where
  "extract_text_from_image tess self image_data page_number =
     (case extract_text_from_image_try tess self image_data page_number of
        Inl e \<Rightarrow> []
      | Inr blocks \<Rightarrow> blocks)"

definition script_map :: "(string \<times> string) list" where
  "script_map = [(''Han'', ''chi_sim''), (''Latin'', ''eng''), (''Vietnamese'', ''vie'')]"

text \<open>The loop of \<open>detect_language\<close> over the lines of the OSD output.\<close>

fun detect_language_lines :: "string list \<Rightarrow> py_error + string" where
  "detect_language_lines [] = Inr ''eng''"
| "detect_language_lines (line # rest) =
     (if startswith line ''Script:''
      then (case py_getitem (split line CHR '':'') 1 of
              Inl e \<Rightarrow> Inl e
            | Inr field \<Rightarrow>
                (let script = strip field
                 in Inr (case map_of script_map script of None \<Rightarrow> ''eng'' | Some code \<Rightarrow> code)))
      else detect_language_lines rest)"

definition detect_language_try :: "tesseract \<Rightarrow> bytes \<Rightarrow> py_error + string" where
  "detect_language_try tess image_data =
     (case Image_open tess image_data of
        Inl e \<Rightarrow> Inl e
      | Inr img0 \<Rightarrow>
          (case preprocess_image img0 of
             Inl e \<Rightarrow> Inl e
           | Inr img \<Rightarrow>
               (case image_to_osd tess img of
                  Inl e \<Rightarrow> Inl e
                | Inr osd \<Rightarrow> detect_language_lines (split osd CHR 0x0A))))"

definition detect_language :: "tesseract \<Rightarrow> bytes \<Rightarrow> string" where
  "detect_language tess image_data =
     (case detect_language_try tess image_data of
        Inl e \<Rightarrow> ''eng''
      | Inr code \<Rightarrow> code)"

section \<open>PDF extraction (app/services/pdf\_processor.py)\<close>

subsection \<open>The file as the two libraries read it\<close>

text \<open>
  A word dictionary returned by pdfplumber's \<open>page.extract_words\<close>: each key the code reads
  with \<open>word.get(key, dflt)\<close> may be absent.
\<close>

record plumber_word =
  w_text :: "string option"
  w_x0 :: "real option"
  w_y0 :: "real option"
  w_x1 :: "real option"
  w_y1 :: "real option"
  w_fontname :: "string option"
  w_height :: "real option"

definition dict_get :: "'a option \<Rightarrow> 'a \<Rightarrow> 'a" where
  "dict_get entry dflt = (case entry of None \<Rightarrow> dflt | Some v \<Rightarrow> v)"

text \<open>
  An entry of PyMuPDF's \<open>page.get_images(full=True)\<close> with what \<open>doc.extract_image(xref)\<close>
  and \<open>page.get_image_bbox(img_info)\<close> return for it.
\<close>

record embedded_image =
  base_image :: bytes
  base_width :: int
  base_height :: int
  base_ext :: string
  rect :: "real \<times> real \<times> real \<times> real"

text \<open>
  One page of the file: what \<open>page.extract_words(...)\<close> and the page size give in
  pdfplumber, and what \<open>page.get_images(full=True)\<close> gives in PyMuPDF. The file is read
  without errors by both libraries.
\<close>

record pdf_page =
  extract_words :: "plumber_word list"
  get_images :: "embedded_image list"
  plumber_width :: real
  plumber_height :: real

type_synonym pdf_file = "pdf_page list"

text \<open>
  \<open>doc[i]\<close> on a PyMuPDF document: the library takes every page number below the page
  count and adds the page count to a negative one until it is non-negative. With no page
  at all that loop never ends.
\<close>

definition fitz_getitem :: "pdf_file \<Rightarrow> int \<Rightarrow> py_error + pdf_page" where
  "fitz_getitem doc i =
     (let n = int (length doc)
      in if n \<le> i then Inl IndexError
         else if 0 \<le> i then Inr (doc ! nat i)
         else if n = 0 then Inl DoesNotReturn
         else Inr (doc ! nat (i mod n)))"

text \<open>A PyMuPDF rectangle is false exactly when all four coordinates are zero.\<close>

definition rect_bool :: "real \<times> real \<times> real \<times> real \<Rightarrow> bool" where
  "rect_bool r = (r \<noteq> (0, 0, 0, 0))"

subsection \<open>The processor\<close>

text \<open>
  \<open>pdf_path\<close> stands for the file it names, which every method opens again.
  \<open>ocr_processor\<close> is \<open>None\<close> or the \<open>extract_text_from_image\<close> method of the OCR
  object, seen through the fields of \<open>PDFTextBlock\<close>.
\<close>

record PDFProcessor =
  pdf_path :: pdf_file
  enable_ocr :: bool
  ocr_processor :: "(bytes \<Rightarrow> int \<Rightarrow> PDFTextBlock list) option"

text \<open>
  The constructor. \<open>OCR_AVAILABLE\<close> tells whether the import of the OCR module succeeded.
  The OCR processor, when there is one, is the method \<open>extract_text_from_image\<close> of the
  \<open>OCRProcessor\<close> just built, whose constructor may raise.
\<close>

definition PDFProcessor_init ::
  "bool \<Rightarrow> bool \<Rightarrow> tesseract \<Rightarrow> pdf_file \<Rightarrow> bool \<Rightarrow> string list option
     \<Rightarrow> py_error + PDFProcessor" where
  "PDFProcessor_init OCR_AVAILABLE TESSERACT_AVAILABLE tess path enable ocr_languages =
     (let enabled = (enable \<and> OCR_AVAILABLE)
      in if enabled
         then (case OCRProcessor_init TESSERACT_AVAILABLE tess ocr_languages of
                 Inl e \<Rightarrow> Inl e
               | Inr ocr \<Rightarrow>
                   Inr \<lparr>pdf_path = path, enable_ocr = enabled,
                        ocr_processor =
                          Some (\<lambda>image_data n.
                                  map PDFTextBlock.truncate
                                    (extract_text_from_image tess ocr image_data n))\<rparr>)
         else Inr \<lparr>pdf_path = path, enable_ocr = enabled, ocr_processor = None\<rparr>)"

definition get_page_count :: "PDFProcessor \<Rightarrow> int" where
  "get_page_count self = int (length (pdf_path self))"

definition word_to_block :: "plumber_word \<Rightarrow> PDFTextBlock" where
  "word_to_block word =
     \<lparr>text = dict_get (w_text word) [],
      x0 = dict_get (w_x0 word) 0,
      y0 = dict_get (w_y0 word) 0,
      x1 = dict_get (w_x1 word) 0,
      y1 = dict_get (w_y1 word) 0,
      font_name = dict_get (w_fontname word) ''Arial'',
      font_size = dict_get (w_height word) 12\<rparr>"

definition to_pdf_image :: "embedded_image \<Rightarrow> PDFImage" where
  "to_pdf_image img_info =
     \<lparr>data = base_image img_info,
      width = base_width img_info,
      height = base_height img_info,
      dpi = 72,
      format = base_ext img_info,
      position = (if rect_bool (rect img_info) then rect img_info else (0, 0, 0, 0))\<rparr>"

definition extract_images :: "PDFProcessor \<Rightarrow> int \<Rightarrow> py_error + PDFImage list" where
  "extract_images self page_number =
     (let doc = pdf_path self
      in if page_number \<ge> int (length doc) then Inr []
         else (case fitz_getitem doc page_number of
                 Inl e \<Rightarrow> Inl e
               | Inr page \<Rightarrow> Inr (map to_pdf_image (get_images page))))"

text \<open>
  The second component of the result lists the calls made to the OCR processor, each with
  its arguments \<open>(image_data, page_number)\<close>, in the order they were made.
\<close>

definition extract_text_blocks ::
  "PDFProcessor \<Rightarrow> int \<Rightarrow> py_error + (PDFTextBlock list \<times> (bytes \<times> int) list)" where
  "extract_text_blocks self page_number =
     (let pdf = pdf_path self
      in if page_number \<ge> int (length pdf) then Inr ([], [])
         else (case py_getitem pdf page_number of
                 Inl e \<Rightarrow> Inl e
               | Inr page \<Rightarrow>
                   (let text_blocks = map word_to_block (extract_words page)
                    in if length text_blocks = 0 \<and> enable_ocr self
                       then (case ocr_processor self of
                               None \<Rightarrow> Inr (text_blocks, [])
                             | Some ocr \<Rightarrow>
                                 (case extract_images self page_number of
                                    Inl e \<Rightarrow> Inl e
                                  | Inr images \<Rightarrow>
                                      (case images of
                                         [] \<Rightarrow> Inr (text_blocks, [])
                                       | first # others \<Rightarrow>
                                           (let largest_image =
                                                  py_max_key (\<lambda>img. width img * height img)
                                                    first others
                                            in Inr (ocr (data largest_image) page_number,
                                                    [(data largest_image, page_number)])))))
                       else Inr (text_blocks, []))))"

record PDFPage =
  page_number :: int
  text_blocks :: "PDFTextBlock list"
  images :: "PDFImage list"
  page_width :: real
  page_height :: real
  has_text :: bool
  has_images :: bool

text \<open>
  In \<open>process_page\<close> the parameter \<open>page_number\<close> is written \<open>page_no\<close> and the locals
  \<open>text_blocks\<close> and \<open>images\<close> are written \<open>blocks\<close> and \<open>imgs\<close>, the fields of
  \<open>PDFPage\<close> having taken the names; its fields \<open>width\<close> and \<open>height\<close> are
  \<open>page_width\<close> and \<open>page_height\<close>.
\<close>

definition process_page :: "PDFProcessor \<Rightarrow> int \<Rightarrow> py_error + PDFPage" where
  "process_page self page_no =
     (case extract_text_blocks self page_no of
        Inl e \<Rightarrow> Inl e
      | Inr (blocks, ocr_calls) \<Rightarrow>
          (case extract_images self page_no of
             Inl e \<Rightarrow> Inl e
           | Inr imgs \<Rightarrow>
               (case py_getitem (pdf_path self) page_no of
                  Inl e \<Rightarrow> Inl e
                | Inr page \<Rightarrow>
                    Inr \<lparr>page_number = page_no,
                         text_blocks = blocks,
                         images = imgs,
                         page_width = plumber_width page,
                         page_height = plumber_height page,
                         has_text = (length blocks > 0),
                         has_images = (length imgs > 0)\<rparr>)))"

fun process_pages :: "PDFProcessor \<Rightarrow> int list \<Rightarrow> py_error + PDFPage list" where
  "process_pages self [] = Inr []"
| "process_pages self (i # rest) =
     (case process_page self i of
        Inl e \<Rightarrow> Inl e
      | Inr page \<Rightarrow>
          (case process_pages self rest of
             Inl e \<Rightarrow> Inl e
           | Inr pages \<Rightarrow> Inr (page # pages)))"

definition process_all_pages :: "PDFProcessor \<Rightarrow> py_error + PDFPage list" where
  "process_all_pages self = process_pages self (map int [0 ..< nat (get_page_count self)])"

section \<open>Document assembly (app/services/docx\_generator.py)\<close>

text \<open>
  python-docx lengths are integers in English Metric Units: \<open>Inches(x)\<close> is
  \<open>int(x * 914400)\<close> and \<open>Pt(x)\<close> is \<open>int(x * 12700)\<close>.
\<close>

definition Inches :: "real \<Rightarrow> int" where
  "Inches x = py_int (x * 914400)"

definition Pt :: "real \<Rightarrow> int" where
  "Pt x = py_int (x * 12700)"

record docx_run =
  run_text :: string
  run_font_name :: string
  run_font_size :: int

text \<open>
  The body of the document, in order: a paragraph with its runs, a picture with the
  \<open>width\<close> and \<open>height\<close> arguments given to \<open>add_picture\<close>, or a page break.
\<close>

datatype docx_element =
  Paragraph "docx_run list"
| Picture bytes "int option" "int option"
| PageBreak

type_synonym Document = "docx_element list"

text \<open>
  \<open>doc.add_picture(stream, width, height)\<close>: python-docx first adds a paragraph with an
  empty run and then reads the image into it, which raises when the bytes are not an image
  it recognises (\<open>readable\<close> tells); the paragraph then stays behind, empty.
\<close>

definition add_picture ::
  "(bytes \<Rightarrow> bool) \<Rightarrow> Document \<Rightarrow> bytes \<Rightarrow> int option \<Rightarrow> int option \<Rightarrow> Document \<times> py_error option" where
  "add_picture readable doc stream w h =
     (if readable stream then (doc @ [Picture stream w h], None)
      else (doc @ [Paragraph []], Some (OtherError ''UnrecognizedImageError'')))"

definition add_image_to_document :: "(bytes \<Rightarrow> bool) \<Rightarrow> Document \<Rightarrow> PDFImage \<Rightarrow> Document" where
  "add_image_to_document readable doc img =
     (let image_stream = data img;
          max_width = Inches 6;
          aspect_ratio = (if width img > 0
                          then real_of_int (height img) / real_of_int (width img) else 1);
          w = min max_width (Inches (real_of_int (width img) / 72))
      in (case add_picture readable doc image_stream (Some w) None of
            (doc', None) \<Rightarrow> doc' @ [Paragraph []]
          | (doc', Some e) \<Rightarrow> doc'))"

text \<open>
  The loop of \<open>_group_text_into_paragraphs\<close> over \<open>sorted_blocks[1:]\<close>, on the state
  \<open>(paragraphs, current_para, current_y)\<close>.
\<close>

fun group_loop ::
  "real \<Rightarrow> PDFTextBlock list \<Rightarrow> PDFTextBlock list list \<times> PDFTextBlock list \<times> real
     \<Rightarrow> PDFTextBlock list list \<times> PDFTextBlock list \<times> real" where
  "group_loop y_tolerance [] state = state"
| "group_loop y_tolerance (block # rest) (paragraphs, current_para, current_y) =
     (if \<bar>y0 block - current_y\<bar> \<le> y_tolerance
      then group_loop y_tolerance rest (paragraphs, current_para @ [block], current_y)
      else group_loop y_tolerance rest (paragraphs @ [current_para], [block], y0 block))"

text \<open>
  \<open>sorted\<close> is stable, as \<open>sort_key\<close> is. It keeps the length of the list, so the sorted
  list of a non-empty list has a first element and \<open>sorted_blocks[0]\<close> never raises.
\<close>

definition group_text_into_paragraphs ::
  "PDFTextBlock list \<Rightarrow> real \<Rightarrow> PDFTextBlock list list" where
  "group_text_into_paragraphs blocks y_tolerance =
     (if blocks = [] then []
      else (case sort_key (\<lambda>b. (y0 b, x0 b)) blocks of
              [] \<Rightarrow> []
            | first # others \<Rightarrow>
                (case group_loop y_tolerance others ([], [first], y0 first) of
                   (paragraphs, current_para, current_y) \<Rightarrow>
                     (if current_para \<noteq> [] then paragraphs @ [current_para]
                      else paragraphs))))"

definition add_run :: "PDFTextBlock \<Rightarrow> docx_run" where
  "add_run block =
     \<lparr>run_text = text block @ '' '',
      run_font_name = map_font (font_name block),
      run_font_size = Pt (font_size block)\<rparr>"

definition add_page_to_document :: "(bytes \<Rightarrow> bool) \<Rightarrow> Document \<Rightarrow> PDFPage \<Rightarrow> Document" where
  "add_page_to_document readable doc page =
     (let paragraphs = group_text_into_paragraphs (text_blocks page) 5;
          doc' = foldl (\<lambda>d para_blocks. d @ [Paragraph (map add_run para_blocks)]) doc paragraphs
      in foldl (add_image_to_document readable) doc' (images page))"

text \<open>The document that \<open>create_document\<close> saves, starting from the empty \<open>Document()\<close>.\<close>

definition create_document :: "(bytes \<Rightarrow> bool) \<Rightarrow> PDFPage list \<Rightarrow> Document" where
  "create_document readable pages =
     foldl (\<lambda>doc page.
              (let doc' = add_page_to_document readable doc page
               in if page_number page < int (length pages) - 1 then doc' @ [PageBreak]
                  else doc'))
           [] pages"

text \<open>
  What a reader of the saved document sees: the page sections are the stretches of the body
  between page breaks.
\<close>

fun page_sections_acc :: "docx_element list \<Rightarrow> Document \<Rightarrow> docx_element list list" where
  "page_sections_acc cur [] = [rev cur]"
| "page_sections_acc cur (e # es) =
     (if e = PageBreak then rev cur # page_sections_acc [] es
      else page_sections_acc (e # cur) es)"

definition page_sections :: "Document \<Rightarrow> docx_element list list" where
  "page_sections doc = page_sections_acc [] doc"

section \<open>Paragraph grouping as the specification words it\<close>


section \<open>Example inputs\<close>

text \<open>A text run at height \<open>y\<close> and horizontal position \<open>x\<close>.\<close>

definition example_run :: "real \<Rightarrow> real \<Rightarrow> PDFTextBlock" where
  "example_run y x =
     \<lparr>text = ''word'', x0 = x, y0 = y, x1 = x + 20, y1 = y + 10,
      font_name = ''Helvetica'', font_size = 10\<rparr>"

text \<open>
  Three extracted pages: two text runs, then a scanned page with its OCR run and its image,
  then an empty page. Every image is one python-docx can read.
\<close>

definition example_image :: PDFImage where
  "example_image =
     \<lparr>data = ''scan'', width = 360, height = 720, dpi = 72, format = ''png'',
      position = (0, 0, 612, 792)\<rparr>"

definition example_pages :: "PDFPage list" where
  "example_pages =
     [\<lparr>page_number = 0, text_blocks = [example_run 10 0, example_run 10 30], images = [],
       page_width = 612, page_height = 792, has_text = True, has_images = False\<rparr>,
      \<lparr>page_number = 1,
       text_blocks = [\<lparr>text = ''recognised'', x0 = 0, y0 = 0, x1 = 360, y1 = 720,
                       font_name = ''OCR-Result'', font_size = 12\<rparr>],
       images = [example_image],
       page_width = 612, page_height = 792, has_text = True, has_images = True\<rparr>,
      \<lparr>page_number = 2, text_blocks = [], images = [],
       page_width = 612, page_height = 792, has_text = False, has_images = False\<rparr>]"

definition all_readable :: "bytes \<Rightarrow> bool" where
  "all_readable stream = True"

text \<open>
  A file of two pages: a page with one word, as pdfplumber reports it without the keys
  \<open>y0\<close>, \<open>y1\<close> and \<open>fontname\<close>, and a scanned page with three embedded images and no
  word. The processor has OCR enabled; its OCR answers with one run.
\<close>

definition example_word :: plumber_word where
  "example_word =
     \<lparr>w_text = Some ''Hello'', w_x0 = Some 72, w_y0 = None, w_x1 = Some 100, w_y1 = None,
      w_fontname = None, w_height = Some 10\<rparr>"

definition example_scan :: "bytes \<Rightarrow> int \<Rightarrow> int \<Rightarrow> embedded_image" where
  "example_scan stream w h =
     \<lparr>base_image = stream, base_width = w, base_height = h, base_ext = ''png'',
      rect = (0, 0, 612, 792)\<rparr>"

definition example_pdf :: pdf_file where
  "example_pdf =
     [\<lparr>extract_words = [example_word], get_images = [],
       plumber_width = 612, plumber_height = 792\<rparr>,
      \<lparr>extract_words = [],
       get_images = [example_scan ''logo'' 10 10, example_scan ''scan'' 20 20,
                     example_scan ''stamp'' 40 10],
       plumber_width = 612, plumber_height = 792\<rparr>]"

definition example_ocr :: "bytes \<Rightarrow> int \<Rightarrow> PDFTextBlock list" where
  "example_ocr image_data n =
     [\<lparr>text = ''recognised'', x0 = 0, y0 = 0, x1 = 20, y1 = 20,
       font_name = ''OCR-Result'', font_size = 12\<rparr>]"

definition example_processor :: PDFProcessor where
  "example_processor =
     \<lparr>pdf_path = example_pdf, enable_ocr = True, ocr_processor = Some example_ocr\<rparr>"

text \<open>
  A Tesseract installation that opens every byte string as an RGB image of 4724 by 7087
  pixels, reads the text given as \<open>recognised\<close> from it, and reports the OSD output given
  as \<open>osd\<close>.
\<close>

definition example_open :: "bytes \<Rightarrow> py_error + Image" where
  "example_open image_data = Inr \<lparr>im_mode = ''RGB'', im_size = (4724, 7087)\<rparr>"

definition example_to_string :: "string \<Rightarrow> Image \<Rightarrow> string \<Rightarrow> string \<Rightarrow> py_error + string" where
  "example_to_string recognised img lang config = Inr recognised"

definition example_to_osd :: "string \<Rightarrow> Image \<Rightarrow> py_error + string" where
  "example_to_osd osd img = Inr osd"

definition example_tesseract :: "string \<Rightarrow> string \<Rightarrow> tesseract" where
  "example_tesseract recognised osd =
     \<lparr>get_tesseract_version = Inr ''5.3.0'',
      Image_open = example_open,
      image_to_string = example_to_string recognised,
      image_to_osd = example_to_osd osd\<rparr>"


definition example_osd :: "string \<Rightarrow> string" where
  "example_osd script =
     ''Page number: 0'' @ [CHR 0x0A] @ ''Orientation in degrees: 0'' @ [CHR 0x0A]
     @ ''Rotate: 0'' @ [CHR 0x0A] @ ''Orientation confidence: 2.50'' @ [CHR 0x0A]
     @ ''Script: '' @ script @ [CHR 0x0A] @ ''Script confidence: 1.20'' @ [CHR 0x0A]"

section \<open>Font substitution table\<close>

lemma substitution_table_checked:
  "list_all (\<lambda>(k, v). k = ''.VnTime'' \<or> k = ''.VnArial'' \<or>
       (if k = ''Georgia''
        then map_font k = ''Georgia'' \<and> reason (get_font_info k) = ''web-safe''
        else map_font k = v \<and> reason (get_font_info k) = ''substituted''))
     FONT_SUBSTITUTION"
  by code_simp

text \<open>
  C3, as stated, fails: three keys of the substitution table do not reach their entry.
  \<open>Georgia\<close> is also in the web-safe set, which \<open>map_font\<close> checks first, so it is
  returned unchanged with reason \<open>web-safe\<close>. The keys \<open>.VnTime\<close> and \<open>.VnArial\<close> are
  changed by the cleaning step (a space goes before the capital after \<open>Vn\<close>), so they miss
  the table and fall back to \<open>Arial\<close> with reason \<open>fallback\<close>.
\<close>

theorem substitution_table_counterexample:
  "(''Georgia'', ''Times New Roman'') \<in> set FONT_SUBSTITUTION
   \<and> map_font ''Georgia'' = ''Georgia''
   \<and> map_font ''Georgia'' \<noteq> ''Times New Roman''
   \<and> reason (get_font_info ''Georgia'') = ''web-safe''
   \<and> (''.VnTime'', ''Times New Roman'') \<in> set FONT_SUBSTITUTION
   \<and> clean_font_name ''.VnTime'' = ''.Vn Time''
   \<and> map_font ''.VnTime'' = ''Arial''
   \<and> reason (get_font_info ''.VnTime'') = ''fallback''
   \<and> (''.VnArial'', ''Arial'') \<in> set FONT_SUBSTITUTION
   \<and> reason (get_font_info ''.VnArial'') = ''fallback''"
  by code_simp

text \<open>
  C3, amended: for every entry \<open>(k, v)\<close> of the substitution table other than the keys
  \<open>.VnTime\<close> and \<open>.VnArial\<close>, \<open>map_font k\<close> is \<open>v\<close> and \<open>get_font_info k\<close> gives the
  reason \<open>substituted\<close>, except that the web-safe key \<open>Georgia\<close> is returned unchanged with
  the reason \<open>web-safe\<close>.
\<close>

theorem map_font_substitution_entries:
  assumes "(k, v) \<in> set FONT_SUBSTITUTION" and "k \<noteq> ''.VnTime''" and "k \<noteq> ''.VnArial''"
  shows "if k = ''Georgia''
         then map_font k = ''Georgia'' \<and> reason (get_font_info k) = ''web-safe''
         else map_font k = v \<and> reason (get_font_info k) = ''substituted''"
  using substitution_table_checked assms unfolding list_all_iff by blast

theorem map_font_substitution_entries_witness:
  "(''Helvetica'', ''Arial'') \<in> set FONT_SUBSTITUTION
   \<and> map_font ''Helvetica'' = ''Arial''
   \<and> reason (get_font_info ''Helvetica'') = ''substituted''"
  using map_font_substitution_entries [of "''Helvetica''" "''Arial''"]
  by (simp add: FONT_SUBSTITUTION_def)

section \<open>Paragraph grouping\<close>

lemma group_loop_concat:
  "group_loop tol bs (ps, cur, y) = (ps', cur', y') \<Longrightarrow> concat ps' @ cur' = concat ps @ cur @ bs"
  by (induction bs arbitrary: ps cur y) (auto split: if_splits)

lemma group_loop_nonempty:
  "group_loop tol bs (ps, cur, y) = (ps', cur', y') \<Longrightarrow> cur \<noteq> [] \<Longrightarrow> [] \<notin> set ps
     \<Longrightarrow> cur' \<noteq> [] \<and> [] \<notin> set ps'"
  by (induction bs arbitrary: ps cur y) (auto split: if_splits)


lemma sort_key_not_Nil: "xs \<noteq> [] \<Longrightarrow> sort_key f xs \<noteq> []"
  by (metis length_sort length_0_conv)

text \<open>
  The shape of a run of \<open>_group_text_into_paragraphs\<close> on a non-empty list: the sorted list
  has a first element, and the loop ends with a non-empty current paragraph.
\<close>

lemma group_text_unfold:
  assumes "bs \<noteq> []"
  obtains f rest ps cur y where
    "sort_key (\<lambda>b. (y0 b, x0 b)) bs = f # rest"
    "group_loop tol rest ([], [f], y0 f) = (ps, cur, y)"
    "cur \<noteq> []" "[] \<notin> set ps"
    "group_text_into_paragraphs bs tol = ps @ [cur]"
proof -
  obtain f rest where s: "sort_key (\<lambda>b. (y0 b, x0 b)) bs = f # rest"
    using sort_key_not_Nil [OF assms] by (cases "sort_key (\<lambda>b. (y0 b, x0 b)) bs") auto
  obtain ps cur y where g: "group_loop tol rest ([], [f], y0 f) = (ps, cur, y)"
    by (cases "group_loop tol rest ([], [f], y0 f)") auto
  from group_loop_nonempty [OF g] have ne: "cur \<noteq> []" "[] \<notin> set ps" by simp_all
  with assms s g have "group_text_into_paragraphs bs tol = ps @ [cur]"
    by (simp add: group_text_into_paragraphs_def)
  with s g ne show thesis by (rule that)
qed

lemma group_text_concat:
  "concat (group_text_into_paragraphs bs tol) = sort_key (\<lambda>b. (y0 b, x0 b)) bs"
proof (cases "bs = []")
  case True
  then show ?thesis by (simp add: group_text_into_paragraphs_def)
next
  case False
  then obtain f rest ps cur y where
    "sort_key (\<lambda>b. (y0 b, x0 b)) bs = f # rest"
    "group_loop tol rest ([], [f], y0 f) = (ps, cur, y)"
    "group_text_into_paragraphs bs tol = ps @ [cur]"
    by (rule group_text_unfold)
  with group_loop_concat [of tol rest "[]" "[f]" "y0 f" ps cur y] show ?thesis by simp
qed

lemma group_text_nonempty: "[] \<notin> set (group_text_into_paragraphs bs tol)"
proof (cases "bs = []")
  case True
  then show ?thesis by (simp add: group_text_into_paragraphs_def)
next
  case False
  then obtain ps cur where "cur \<noteq> []" "[] \<notin> set ps"
    "group_text_into_paragraphs bs tol = ps @ [cur]"
    by (rule group_text_unfold)
  then show ?thesis by auto
qed









text \<open>
  C9: the paragraphs partition the runs sorted by \<open>(y0, x0)\<close>: put end to end they are the
  sorted list, and none of them is empty.
\<close>

theorem paragraphs_partition_sorted:
  "concat (group_text_into_paragraphs bs tol) = sort_key (\<lambda>b. (y0 b, x0 b)) bs
   \<and> [] \<notin> set (group_text_into_paragraphs bs tol)"
  by (simp add: group_text_concat group_text_nonempty)

section \<open>Pages and page breaks\<close>

lemma add_image_append:
  "add_image_to_document readable doc img = doc @ add_image_to_document readable [] img"
  by (simp add: add_image_to_document_def add_picture_def Let_def)

lemma add_images_append:
  "foldl (add_image_to_document readable) doc imgs
     = doc @ concat (map (add_image_to_document readable []) imgs)"
proof (induction imgs arbitrary: doc)
  case Nil
  then show ?case by simp
next
  case (Cons img imgs)
  have "foldl (add_image_to_document readable) doc (img # imgs)
          = foldl (add_image_to_document readable) (add_image_to_document readable doc img) imgs"
    by simp
  also have "\<dots> = add_image_to_document readable doc img
                    @ concat (map (add_image_to_document readable []) imgs)"
    by (rule Cons.IH)
  also have "add_image_to_document readable doc img
               = doc @ add_image_to_document readable [] img"
    by (rule add_image_append)
  finally show ?case by simp
qed

lemma add_paragraphs_append:
  "foldl (\<lambda>d para_blocks. d @ [Paragraph (map add_run para_blocks)]) doc ps
     = doc @ map (\<lambda>para_blocks. Paragraph (map add_run para_blocks)) ps"
  by (induction ps arbitrary: doc) auto

lemma add_page_body:
  "add_page_to_document readable doc page
     = doc @ map (\<lambda>para_blocks. Paragraph (map add_run para_blocks))
               (group_text_into_paragraphs (text_blocks page) 5)
           @ concat (map (add_image_to_document readable []) (images page))"
  unfolding add_page_to_document_def Let_def add_paragraphs_append add_images_append
  by simp

lemma add_page_append:
  "add_page_to_document readable doc page = doc @ add_page_to_document readable [] page"
  by (simp add: add_page_body [of readable doc] add_page_body [of readable "[]"])

lemma add_image_no_break: "PageBreak \<notin> set (add_image_to_document readable [] img)"
  by (simp add: add_image_to_document_def add_picture_def Let_def)

lemma add_page_no_break: "PageBreak \<notin> set (add_page_to_document readable [] page)"
  using add_image_no_break by (auto simp add: add_page_body [of readable "[]"])

lemma page_sections_acc_no_break:
  "PageBreak \<notin> set xs \<Longrightarrow> page_sections_acc cur xs = [rev cur @ xs]"
  by (induction xs arbitrary: cur) auto

lemma page_sections_acc_break:
  "PageBreak \<notin> set xs \<Longrightarrow>
     page_sections_acc cur (xs @ PageBreak # rest) = (rev cur @ xs) # page_sections_acc [] rest"
  by (induction xs arbitrary: cur) auto

text \<open>A run of the loop of \<open>create_document\<close> on pages that all get a page break.\<close>

lemma create_loop_breaks:
  "\<forall>p\<in>set ps. page_number p < n - 1 \<Longrightarrow>
   foldl (\<lambda>doc page.
            (let doc' = add_page_to_document readable doc page
             in if page_number page < n - 1 then doc' @ [PageBreak] else doc')) doc ps
     = doc @ concat (map (\<lambda>p. add_page_to_document readable [] p @ [PageBreak]) ps)"
proof (induction ps arbitrary: doc)
  case Nil
  then show ?case by simp
next
  case (Cons p ps)
  then show ?case by (simp add: Let_def add_page_append [of readable doc p])
qed

lemma page_sections_bodies:
  "\<forall>b\<in>set bodies. PageBreak \<notin> set b \<Longrightarrow> PageBreak \<notin> set final \<Longrightarrow>
     page_sections_acc [] (concat (map (\<lambda>b. b @ [PageBreak]) bodies) @ final) = bodies @ [final]"
proof (induction bodies)
  case Nil
  then show ?case by (simp add: page_sections_acc_no_break)
next
  case (Cons b bodies)
  then show ?case by (simp add: page_sections_acc_break)
qed

lemma count_breaks_bodies:
  "\<forall>b\<in>set bodies. PageBreak \<notin> set b \<Longrightarrow> PageBreak \<notin> set final \<Longrightarrow>
     length (filter (\<lambda>e. e = PageBreak) (concat (map (\<lambda>b. b @ [PageBreak]) bodies) @ final))
       = length bodies"
proof (induction bodies)
  case Nil
  then show ?case by (auto simp add: filter_empty_conv)
next
  case (Cons b bodies)
  then have "filter (\<lambda>e. e = PageBreak) b = []" by (auto simp add: filter_empty_conv)
  with Cons show ?case by simp
qed

lemma create_document_shape:
  assumes "pages \<noteq> []" and "map page_number pages = map int [0 ..< length pages]"
  shows "create_document readable pages
           = concat (map (\<lambda>p. add_page_to_document readable [] p @ [PageBreak]) (butlast pages))
             @ add_page_to_document readable [] (last pages)"
proof -
  let ?n = "int (length pages)"
  have num: "page_number (pages ! i) = int i" if "i < length pages" for i
  proof -
    from that have "map page_number pages ! i = page_number (pages ! i)" by simp
    moreover from that have "map int [0 ..< length pages] ! i = int i" by simp
    ultimately show ?thesis using assms(2) by simp
  qed
  have front: "\<forall>p\<in>set (butlast pages). page_number p < ?n - 1"
  proof
    fix p assume "p \<in> set (butlast pages)"
    then obtain i where i: "i < length (butlast pages)" "p = butlast pages ! i"
      by (auto simp: in_set_conv_nth)
    then have "p = pages ! i" "i < length pages" by (simp_all add: nth_butlast)
    with num [of i] i show "page_number p < ?n - 1" by simp
  qed
  have lastp: "page_number (last pages) = ?n - 1"
  proof -
    from assms(1) have "0 < length pages" by simp
    then have "int (length pages - 1) = int (length pages) - 1" by linarith
    with assms(1) num [of "length pages - 1"] show ?thesis by (simp add: last_conv_nth)
  qed
  have split: "pages = butlast pages @ [last pages]" using assms(1) by simp
  let ?step = "\<lambda>doc page.
            (let doc' = add_page_to_document readable doc page
             in if page_number page < ?n - 1 then doc' @ [PageBreak] else doc')"
  have "create_document readable pages = foldl ?step [] (butlast pages @ [last pages])"
    unfolding create_document_def using split by simp
  also have "\<dots> = ?step (foldl ?step [] (butlast pages)) (last pages)" by simp
  also have "foldl ?step [] (butlast pages)
     = [] @ concat (map (\<lambda>p. add_page_to_document readable [] p @ [PageBreak]) (butlast pages))"
    using front by (rule create_loop_breaks)
  finally show ?thesis
    using lastp by (simp add: Let_def add_page_append [of readable "concat _"])
qed


text \<open>
  C2: for a non-empty list of pages numbered 0, 1, 2, ... in order, the saved document is the
  content of each page in that order (what \<open>_add_page_to_document\<close> adds for it, which
  may be nothing), with one page break after every page but the last. Cut at its page breaks
  it has one section per page, each the content of its page, and it holds
  \<open>len(pages) - 1\<close> page breaks.
\<close>

theorem create_document_pages_and_breaks:
  assumes "pages \<noteq> []" and "map page_number pages = map int [0 ..< length pages]"
  shows "page_sections (create_document readable pages)
           = map (add_page_to_document readable []) pages
         \<and> length (filter (\<lambda>e. e = PageBreak) (create_document readable pages))
           = length pages - 1
         \<and> create_document readable pages
           = concat (map (\<lambda>p. add_page_to_document readable [] p @ [PageBreak]) (butlast pages))
             @ add_page_to_document readable [] (last pages)"
proof -
  let ?body = "add_page_to_document readable []"
  have shape: "create_document readable pages
           = concat (map (\<lambda>b. b @ [PageBreak]) (map ?body (butlast pages))) @ ?body (last pages)"
    using create_document_shape [OF assms, of readable] by (simp add: comp_def)
  have nb: "\<forall>b\<in>set (map ?body (butlast pages)). PageBreak \<notin> set b"
    using add_page_no_break by auto
  have nl: "PageBreak \<notin> set (?body (last pages))" by (rule add_page_no_break)
  have "page_sections (create_document readable pages)
          = map ?body (butlast pages) @ [?body (last pages)]"
    unfolding page_sections_def shape using nb nl by (rule page_sections_bodies)
  also have "\<dots> = map ?body (butlast pages @ [last pages])" by simp
  also have "butlast pages @ [last pages] = pages" using assms(1) by simp
  finally have sections: "page_sections (create_document readable pages) = map ?body pages" .
  have "length (filter (\<lambda>e. e = PageBreak) (create_document readable pages))
          = length (map ?body (butlast pages))"
    unfolding shape using nb nl by (rule count_breaks_bodies)
  then have breaks: "length (filter (\<lambda>e. e = PageBreak) (create_document readable pages))
          = length pages - 1" by simp
  from sections breaks create_document_shape [OF assms, of readable] show ?thesis by simp
qed

theorem create_document_pages_and_breaks_witness:
  "example_pages \<noteq> []
   \<and> map page_number example_pages = map int [0 ..< length example_pages]
   \<and> length (page_sections (create_document all_readable example_pages)) = 3
   \<and> page_sections (create_document all_readable example_pages) ! 2 = []
   \<and> length (filter (\<lambda>e. e = PageBreak) (create_document all_readable example_pages)) = 2"
proof -
  have ne: "example_pages \<noteq> []" by (simp add: example_pages_def)
  have num: "map page_number example_pages = map int [0 ..< length example_pages]"
    by (simp add: example_pages_def upt_rec)
  have empty: "add_page_to_document all_readable [] (example_pages ! 2) = []"
    by (simp add: example_pages_def add_page_to_document_def group_text_into_paragraphs_def)
  have len: "length example_pages = 3" by (simp add: example_pages_def)
  note main = create_document_pages_and_breaks [OF ne num, of all_readable]
  from main have sections: "page_sections (create_document all_readable example_pages)
      = map (add_page_to_document all_readable []) example_pages" by (rule conjunct1)
  from main have breaks: "length (filter (\<lambda>e. e = PageBreak)
      (create_document all_readable example_pages)) = length example_pages - 1"
    by (rule conjunct2 [THEN conjunct1])
  from sections len have "length (page_sections (create_document all_readable example_pages)) = 3"
    by simp
  moreover from sections len empty
  have "page_sections (create_document all_readable example_pages) ! 2 = []" by simp
  moreover from breaks len
  have "length (filter (\<lambda>e. e = PageBreak) (create_document all_readable example_pages)) = 2"
    by simp
  ultimately show ?thesis using ne num by simp
qed

section \<open>Text extraction and the OCR fallback\<close>

lemma py_max_key_mem: "py_max_key f best xs \<in> set (best # xs)"
  by (induction xs arbitrary: best) (auto split: if_splits)

lemma py_max_key_ge: "f best \<le> f (py_max_key f best xs)"
proof (induction xs arbitrary: best)
  case Nil
  then show ?case by simp
next
  case (Cons x xs)
  show ?case
  proof (cases "f best < f x")
    case True
    with Cons.IH [of x] show ?thesis by simp
  next
    case False
    with Cons.IH [of best] show ?thesis by simp
  qed
qed

lemma py_max_key_max: "x \<in> set (best # xs) \<Longrightarrow> f x \<le> f (py_max_key f best xs)"
proof (induction xs arbitrary: best)
  case Nil
  then show ?case by simp
next
  case (Cons y ys)
  show ?case
  proof (cases "f best < f y")
    case True
    have up: "f y \<le> f (py_max_key f y ys)" by (rule py_max_key_ge)
    from Cons.prems consider "x = best" | "x \<in> set (y # ys)" by auto
    then show ?thesis
    proof cases
      case 1
      with True up show ?thesis by simp
    next
      case 2
      from Cons.IH [OF this] True show ?thesis by simp
    qed
  next
    case False
    have up: "f best \<le> f (py_max_key f best ys)" by (rule py_max_key_ge)
    from Cons.prems consider "x = y" | "x \<in> set (best # ys)" by auto
    then show ?thesis
    proof cases
      case 1
      with False up show ?thesis by simp
    next
      case 2
      from Cons.IH [OF this] False show ?thesis by simp
    qed
  qed
qed

lemma extract_text_blocks_native:
  assumes "py_getitem (pdf_path self) i = Inr page" and "extract_words page \<noteq> []"
  shows "extract_text_blocks self i = Inr (map word_to_block (extract_words page), [])"
proof -
  from assms(1) have "i < int (length (pdf_path self))"
    by (auto simp: py_getitem_def split: if_splits)
  with assms show ?thesis by (simp add: extract_text_blocks_def Let_def)
qed

lemma extract_text_blocks_ocr:
  assumes "py_getitem (pdf_path self) i = Inr page" and "extract_words page = []"
    and "enable_ocr self" and "ocr_processor self = Some ocr"
    and "extract_images self i = Inr (first # others)"
  shows "extract_text_blocks self i
           = Inr (ocr (data (py_max_key (\<lambda>img. width img * height img) first others)) i,
                  [(data (py_max_key (\<lambda>img. width img * height img) first others), i)])"
proof -
  from assms(1) have "i < int (length (pdf_path self))"
    by (auto simp: py_getitem_def split: if_splits)
  with assms show ?thesis by (simp add: extract_text_blocks_def Let_def)
qed


lemma py_max_key_first:
  "\<forall>x\<in>set pre0. f x < f best \<Longrightarrow> \<forall>x\<in>set mid. f x \<le> f best \<Longrightarrow>
     \<exists>pre post. pre0 @ best # mid @ xs = pre @ py_max_key f best xs # post
       \<and> (\<forall>x\<in>set pre. f x < f (py_max_key f best xs))
       \<and> (\<forall>x\<in>set post. f x \<le> f (py_max_key f best xs))"
proof (induction xs arbitrary: best pre0 mid)
  case Nil
  then show ?case by auto
next
  case (Cons y ys)
  show ?case
  proof (cases "f best < f y")
    case True
    with Cons.prems have "\<forall>x\<in>set (pre0 @ best # mid). f x < f y" by auto
    moreover have "\<forall>x\<in>set []. f x \<le> f y" by simp
    ultimately have "\<exists>pre post. (pre0 @ best # mid) @ y # [] @ ys = pre @ py_max_key f y ys # post
       \<and> (\<forall>x\<in>set pre. f x < f (py_max_key f y ys))
       \<and> (\<forall>x\<in>set post. f x \<le> f (py_max_key f y ys))"
      by (rule Cons.IH)
    with True show ?thesis by simp
  next
    case False
    with Cons.prems have "\<forall>x\<in>set (mid @ [y]). f x \<le> f best" by auto
    with Cons.prems(1) have "\<exists>pre post. pre0 @ best # (mid @ [y]) @ ys = pre @ py_max_key f best ys # post
       \<and> (\<forall>x\<in>set pre. f x < f (py_max_key f best ys))
       \<and> (\<forall>x\<in>set post. f x \<le> f (py_max_key f best ys))"
      by (rule Cons.IH)
    with False show ?thesis by simp
  qed
qed

text \<open>
  C1: on a page the file has (index \<open>i\<close> accepted by the page list), when pdfplumber finds
  no word, OCR is enabled with an OCR processor, and the page's image list is not empty,
  \<open>extract_text_blocks\<close> calls the OCR processor once, on the data of the first image
  whose pixel area \<open>width * height\<close> is the largest, and returns what that call returns.
  When pdfplumber finds a word, the result is the list of native blocks and the OCR
  processor is not called.
\<close>

theorem extract_text_blocks_ocr_fallback:
  assumes "py_getitem (pdf_path self) i = Inr page"
  shows "(extract_words page = [] \<and> enable_ocr self \<and> ocr_processor self = Some ocr
            \<and> extract_images self i = Inr imgs \<and> imgs \<noteq> []
          \<longrightarrow> (\<exists>pre largest post. imgs = pre @ largest # post
                 \<and> (\<forall>img\<in>set pre. width img * height img < width largest * height largest)
                 \<and> (\<forall>img\<in>set post. width img * height img \<le> width largest * height largest)
                 \<and> extract_text_blocks self i
                     = Inr (ocr (data largest) i, [(data largest, i)])))
         \<and> (extract_words page \<noteq> []
          \<longrightarrow> extract_text_blocks self i = Inr (map word_to_block (extract_words page), []))"
proof (intro conjI impI)
  assume h: "extract_words page = [] \<and> enable_ocr self \<and> ocr_processor self = Some ocr
            \<and> extract_images self i = Inr imgs \<and> imgs \<noteq> []"
  then obtain first others where imgs: "imgs = first # others" by (cases imgs) auto
  let ?area = "\<lambda>img. width img * height img"
  let ?largest = "py_max_key ?area first others"
  have "\<exists>pre post. [] @ first # [] @ others = pre @ ?largest # post
       \<and> (\<forall>x\<in>set pre. ?area x < ?area ?largest)
       \<and> (\<forall>x\<in>set post. ?area x \<le> ?area ?largest)"
    by (rule py_max_key_first) simp_all
  then obtain pre post where "imgs = pre @ ?largest # post"
    "\<forall>x\<in>set pre. ?area x < ?area ?largest" "\<forall>x\<in>set post. ?area x \<le> ?area ?largest"
    using imgs by auto
  moreover from h imgs
  have "extract_text_blocks self i = Inr (ocr (data ?largest) i, [(data ?largest, i)])"
    by (intro extract_text_blocks_ocr [OF assms]) simp_all
  ultimately show "\<exists>pre largest post. imgs = pre @ largest # post
                 \<and> (\<forall>img\<in>set pre. width img * height img < width largest * height largest)
                 \<and> (\<forall>img\<in>set post. width img * height img \<le> width largest * height largest)
                 \<and> extract_text_blocks self i
                     = Inr (ocr (data largest) i, [(data largest, i)])"
    by blast
next
  assume "extract_words page \<noteq> []"
  with assms show "extract_text_blocks self i = Inr (map word_to_block (extract_words page), [])"
    by (rule extract_text_blocks_native)
qed

lemma example_processor_fields:
  "pdf_path example_processor = example_pdf" "enable_ocr example_processor"
  "ocr_processor example_processor = Some example_ocr"
  by (simp_all add: example_processor_def)

theorem extract_text_blocks_ocr_fallback_witness:
  "py_getitem (pdf_path example_processor) 1 = Inr (example_pdf ! 1)
   \<and> extract_words (example_pdf ! 1) = []
   \<and> enable_ocr example_processor
   \<and> ocr_processor example_processor = Some example_ocr
   \<and> extract_images example_processor 1
       = Inr (map to_pdf_image (get_images (example_pdf ! 1)))
   \<and> (\<exists>pre largest post. map to_pdf_image (get_images (example_pdf ! 1)) = pre @ largest # post
        \<and> (\<forall>img\<in>set pre. width img * height img < width largest * height largest)
        \<and> (\<forall>img\<in>set post. width img * height img \<le> width largest * height largest)
        \<and> extract_text_blocks example_processor 1
            = Inr (example_ocr (data largest) 1, [(data largest, 1)]))
   \<and> py_getitem (pdf_path example_processor) 0 = Inr (example_pdf ! 0)
   \<and> extract_words (example_pdf ! 0) \<noteq> []
   \<and> extract_text_blocks example_processor 0
       = Inr (map word_to_block (extract_words (example_pdf ! 0)), [])"
proof -
  have g1: "py_getitem (pdf_path example_processor) 1 = Inr (example_pdf ! 1)"
    by (simp add: example_processor_fields py_getitem_def example_pdf_def)
  have g0: "py_getitem (pdf_path example_processor) 0 = Inr (example_pdf ! 0)"
    by (simp add: example_processor_fields py_getitem_def example_pdf_def)
  have w1: "extract_words (example_pdf ! 1) = []" by (simp add: example_pdf_def)
  have w0: "extract_words (example_pdf ! 0) \<noteq> []" by (simp add: example_pdf_def)
  have im: "extract_images example_processor 1
       = Inr (map to_pdf_image (get_images (example_pdf ! 1)))"
    by (simp add: extract_images_def fitz_getitem_def example_processor_fields example_pdf_def)
  have ne: "map to_pdf_image (get_images (example_pdf ! 1)) \<noteq> []"
    by (simp add: example_pdf_def)
  from extract_text_blocks_ocr_fallback [OF g1, of example_ocr
      "map to_pdf_image (get_images (example_pdf ! 1))"]
    extract_text_blocks_ocr_fallback [OF g0, of example_ocr "[]"]
    g1 g0 w1 w0 im ne example_processor_fields(2,3)
  show ?thesis by blast
qed

section \<open>Page indices outside the file\<close>

lemma extract_text_blocks_beyond_end:
  "int (length (pdf_path self)) \<le> i \<Longrightarrow> extract_text_blocks self i = Inr ([], [])"
  by (simp add: extract_text_blocks_def)

lemma extract_images_beyond_end:
  "int (length (pdf_path self)) \<le> i \<Longrightarrow> extract_images self i = Inr []"
  by (simp add: extract_images_def)

lemma process_page_beyond_end:
  "int (length (pdf_path self)) \<le> i \<Longrightarrow> process_page self i = Inl IndexError"
  by (simp add: process_page_def extract_text_blocks_beyond_end extract_images_beyond_end
      py_getitem_def)

lemma extract_text_blocks_before_start:
  "i < - int (length (pdf_path self)) \<Longrightarrow> extract_text_blocks self i = Inl IndexError"
  by (simp add: extract_text_blocks_def py_getitem_def)

text \<open>
  C5 does not hold of \<open>process_page\<close>. On the two-page example file, index 2 is out of
  range: \<open>extract_text_blocks\<close> and \<open>extract_images\<close> return empty lists, as their
  guards say, but \<open>process_page\<close> then reads \<open>pdf.pages[2]\<close> for the page size and raises
  \<open>IndexError\<close>. Index \<open>-3\<close> is out of range too, is not caught by the guard
  \<open>page_number >= len(pdf.pages)\<close>, and raises in \<open>extract_text_blocks\<close> already.
\<close>

theorem process_page_out_of_range_raises:
  "length (pdf_path example_processor) = 2
   \<and> extract_text_blocks example_processor 2 = Inr ([], [])
   \<and> extract_images example_processor 2 = Inr []
   \<and> process_page example_processor 2 = Inl IndexError
   \<and> extract_text_blocks example_processor (- 3) = Inl IndexError
   \<and> process_page example_processor (- 3) = Inl IndexError"
proof -
  have len: "length (pdf_path example_processor) = 2"
    by (simp add: example_processor_fields example_pdf_def)
  then have hi: "int (length (pdf_path example_processor)) \<le> 2"
    and lo: "- 3 < - int (length (pdf_path example_processor))" by simp_all
  from lo have t: "extract_text_blocks example_processor (- 3) = Inl IndexError"
    by (rule extract_text_blocks_before_start)
  then have "process_page example_processor (- 3) = Inl IndexError"
    by (simp add: process_page_def)
  with len t extract_text_blocks_beyond_end [OF hi] extract_images_beyond_end [OF hi]
    process_page_beyond_end [OF hi]
  show ?thesis by simp
qed

text \<open>
  C10: a negative index \<open>i\<close> with \<open>-n \<le> i < 0\<close> on a file of \<open>n\<close> pages (so \<open>-1\<close> on
  every file with a page) passes the guard \<open>page_number >= n\<close>; \<open>extract_images\<close> returns
  the images of page \<open>n + i\<close>, and \<open>extract_text_blocks\<close> returns the native text blocks
  of page \<open>n + i\<close> when that page has words.
\<close>

theorem negative_index_reads_from_end:
  assumes "- int (length (pdf_path self)) \<le> i" and "i < 0"
  shows "\<not> i \<ge> int (length (pdf_path self))
         \<and> extract_images self i
             = Inr (map to_pdf_image
                      (get_images (pdf_path self ! nat (int (length (pdf_path self)) + i))))
         \<and> (extract_words (pdf_path self ! nat (int (length (pdf_path self)) + i)) \<noteq> []
            \<longrightarrow> extract_text_blocks self i
                  = Inr (map word_to_block
                           (extract_words (pdf_path self ! nat (int (length (pdf_path self)) + i))),
                         []))"
proof -
  let ?n = "int (length (pdf_path self))"
  from assms have n: "0 < ?n" "\<not> ?n \<le> i" by linarith+
  from assms have m: "i mod ?n = ?n + i"
    by (smt (verit) mod_add_self1 mod_pos_pos_trivial)
  from assms have g: "py_getitem (pdf_path self) i = Inr (pdf_path self ! nat (?n + i))"
    by (simp add: py_getitem_def)
  have "extract_images self i = Inr (map to_pdf_image (get_images (pdf_path self ! nat (?n + i))))"
    using n assms m by (simp add: extract_images_def fitz_getitem_def Let_def)
  with n extract_text_blocks_native [OF g] show ?thesis by simp
qed

theorem negative_index_reads_from_end_witness:
  "- int (length (pdf_path example_processor)) \<le> - 1
   \<and> extract_images example_processor (- 1)
       = Inr (map to_pdf_image (get_images (example_pdf ! 1)))
   \<and> map to_pdf_image (get_images (example_pdf ! 1)) \<noteq> []
   \<and> - int (length (pdf_path example_processor)) \<le> - 2
   \<and> extract_words (example_pdf ! 0) \<noteq> []
   \<and> extract_text_blocks example_processor (- 2)
       = Inr (map word_to_block (extract_words (example_pdf ! 0)), [])"
proof -
  have len: "int (length (pdf_path example_processor)) = 2"
    by (simp add: example_processor_fields example_pdf_def)
  have w0: "extract_words (example_pdf ! 0) \<noteq> []" by (simp add: example_pdf_def)
  have ne: "map to_pdf_image (get_images (example_pdf ! 1)) \<noteq> []"
    by (simp add: example_pdf_def)
  from negative_index_reads_from_end [of example_processor "- 1"]
    negative_index_reads_from_end [of example_processor "- 2"] len w0 ne
  show ?thesis by (simp add: example_processor_fields)
qed

section \<open>OCR recognition\<close>





lemma example_preprocess:
  "preprocess_image \<lparr>im_mode = ''RGB'', im_size = (4724, 7087)\<rparr>
     = Inr \<lparr>im_mode = ''L'', im_size = (2666, 4000)\<rparr>"
  by (simp add: preprocess_image_def convert_def resize_def im_width_def im_height_def
      py_int_def Let_def)


section \<open>Image width\<close>





section \<open>Language detection\<close>

lemma split_acc_not_Nil: "split_acc sep cur s \<noteq> []"
  by (induction s arbitrary: cur) auto

lemma split_acc_two: "2 \<le> length (split_acc sep cur (xs @ sep # ys))"
proof (induction xs arbitrary: cur)
  case Nil
  have "split_acc sep [] ys \<noteq> []" by (rule split_acc_not_Nil)
  then have "1 \<le> length (split_acc sep [] ys)" by (cases "split_acc sep [] ys") simp_all
  then show ?case by simp
next
  case (Cons x xs)
  from Cons.IH [of "[]"] Cons.IH [of "x # cur"] show ?case by auto
qed

lemma script_line_fields:
  assumes "startswith line ''Script:''"
  shows "2 \<le> length (split line CHR '':'')"
proof -
  from assms have "take (length ''Script:'') line = ''Script:''"
    by (simp only: startswith_def)
  then have "line = ''Script:'' @ drop (length ''Script:'') line"
    by (metis append_take_drop_id)
  then have "line = ''Script'' @ CHR '':'' # drop (length ''Script:'') line" by simp
  then show ?thesis unfolding split_def by (metis split_acc_two)
qed

lemma py_getitem_one: "2 \<le> length xs \<Longrightarrow> py_getitem xs 1 = Inr (xs ! 1)"
  by (simp add: py_getitem_def)

lemma detect_language_lines_skip:
  "\<forall>l\<in>set pre. \<not> startswith l ''Script:'' \<Longrightarrow>
     detect_language_lines (pre @ rest) = detect_language_lines rest"
  by (induction pre) simp_all

lemma detect_language_lines_default:
  "\<forall>l\<in>set ls. \<not> startswith l ''Script:'' \<Longrightarrow> detect_language_lines ls = Inr ''eng''"
  by (induction ls) simp_all

lemma detect_language_lines_script:
  assumes "startswith line ''Script:''"
  shows "detect_language_lines (line # post)
           = Inr (let script = strip (split line CHR '':'' ! 1)
                  in if script = ''Han'' then ''chi_sim''
                     else if script = ''Latin'' then ''eng''
                     else if script = ''Vietnamese'' then ''vie''
                     else ''eng'')"
  using assms py_getitem_one [OF script_line_fields [OF assms]]
  by (simp add: script_map_def Let_def)

lemma detect_language_lines_range:
  "detect_language_lines ls = Inr code \<Longrightarrow> code \<in> {''chi_sim'', ''eng'', ''vie''}"
proof (induction ls)
  case Nil
  then show ?case by simp
next
  case (Cons line rest)
  show ?case
  proof (cases "startswith line ''Script:''")
    case True
    from detect_language_lines_script [OF True, of rest] Cons.prems show ?thesis
      by (auto simp: Let_def split: if_splits)
  next
    case False
    with Cons show ?thesis by simp
  qed
qed

text \<open>
  C8, as stated, fails for a script other than Han and Latin: the table of
  \<open>detect_language\<close> has a third entry, and an OSD output that reports the script
  \<open>Vietnamese\<close> gives the code \<open>vie\<close>, not the default \<open>eng\<close>.
\<close>

theorem detect_language_other_script_counterexample:
  "detect_language (example_tesseract [] (example_osd ''Vietnamese'')) ''scan'' = ''vie''
   \<and> ''Vietnamese'' \<noteq> ''Han'' \<and> ''Vietnamese'' \<noteq> ''Latin'' \<and> ''vie'' \<noteq> ''eng''"
  by code_simp

text \<open>
  C8, amended: \<open>detect_language\<close> always returns one of the codes \<open>chi_sim\<close>, \<open>eng\<close>
  and \<open>vie\<close> and has no error result. It returns \<open>eng\<close> when the image does not open,
  when preprocessing fails, when the script detection fails and when no line of the OSD
  output starts with \<open>Script:\<close>. Otherwise the first such line decides: its script, the
  stripped text after the first colon, is mapped by the table that sends \<open>Han\<close> to
  \<open>chi_sim\<close>, \<open>Latin\<close> to \<open>eng\<close> and \<open>Vietnamese\<close> to \<open>vie\<close>, and every other
  script gives \<open>eng\<close>.
\<close>

theorem detect_language_script_table:
  "detect_language tess image_data \<in> {''chi_sim'', ''eng'', ''vie''}
   \<and> (\<forall>e. Image_open tess image_data = Inl e \<longrightarrow> detect_language tess image_data = ''eng'')
   \<and> (\<forall>img0 e. Image_open tess image_data = Inr img0 \<and> preprocess_image img0 = Inl e
         \<longrightarrow> detect_language tess image_data = ''eng'')
   \<and> (\<forall>img0 img e. Image_open tess image_data = Inr img0 \<and> preprocess_image img0 = Inr img
           \<and> image_to_osd tess img = Inl e
         \<longrightarrow> detect_language tess image_data = ''eng'')
   \<and> (\<forall>img0 img osd. Image_open tess image_data = Inr img0 \<and> preprocess_image img0 = Inr img
           \<and> image_to_osd tess img = Inr osd
           \<and> (\<forall>l\<in>set (split osd (CHR 0x0A)). \<not> startswith l ''Script:'')
         \<longrightarrow> detect_language tess image_data = ''eng'')
   \<and> (\<forall>img0 img osd pre line post.
           Image_open tess image_data = Inr img0 \<and> preprocess_image img0 = Inr img
           \<and> image_to_osd tess img = Inr osd
           \<and> split osd (CHR 0x0A) = pre @ line # post
           \<and> (\<forall>l\<in>set pre. \<not> startswith l ''Script:'') \<and> startswith line ''Script:''
         \<longrightarrow> 2 \<le> length (split line CHR '':'')
             \<and> detect_language tess image_data
                 = (let script = strip (split line CHR '':'' ! 1)
                    in if script = ''Han'' then ''chi_sim''
                       else if script = ''Latin'' then ''eng''
                       else if script = ''Vietnamese'' then ''vie''
                       else ''eng''))"
proof (intro conjI allI impI)
  show "detect_language tess image_data \<in> {''chi_sim'', ''eng'', ''vie''}"
  proof (cases "detect_language_try tess image_data")
    case (Inl e)
    then show ?thesis by (simp add: detect_language_def)
  next
    case (Inr code)
    then have "\<exists>ls. detect_language_lines ls = Inr code"
      by (auto simp: detect_language_try_def split: sum.splits)
    then have "code \<in> {''chi_sim'', ''eng'', ''vie''}"
      using detect_language_lines_range by blast
    with Inr show ?thesis by (simp add: detect_language_def)
  qed
next
  fix e assume "Image_open tess image_data = Inl e"
  then show "detect_language tess image_data = ''eng''"
    by (simp add: detect_language_def detect_language_try_def)
next
  fix img0 e assume "Image_open tess image_data = Inr img0 \<and> preprocess_image img0 = Inl e"
  then show "detect_language tess image_data = ''eng''"
    by (simp add: detect_language_def detect_language_try_def)
next
  fix img0 img e
  assume "Image_open tess image_data = Inr img0 \<and> preprocess_image img0 = Inr img
           \<and> image_to_osd tess img = Inl e"
  then show "detect_language tess image_data = ''eng''"
    by (simp add: detect_language_def detect_language_try_def)
next
  fix img0 img osd
  assume "Image_open tess image_data = Inr img0 \<and> preprocess_image img0 = Inr img
           \<and> image_to_osd tess img = Inr osd
           \<and> (\<forall>l\<in>set (split osd (CHR 0x0A)). \<not> startswith l ''Script:'')"
  then show "detect_language tess image_data = ''eng''"
    by (simp add: detect_language_def detect_language_try_def detect_language_lines_default)
next
  fix img0 img osd pre line post
  assume h: "Image_open tess image_data = Inr img0 \<and> preprocess_image img0 = Inr img
           \<and> image_to_osd tess img = Inr osd
           \<and> split osd (CHR 0x0A) = pre @ line # post
           \<and> (\<forall>l\<in>set pre. \<not> startswith l ''Script:'') \<and> startswith line ''Script:''"
  then show "2 \<le> length (split line CHR '':'')" by (simp add: script_line_fields)
  from h have "detect_language_lines (split osd (CHR 0x0A)) = detect_language_lines (line # post)"
    by (simp add: detect_language_lines_skip)
  with h show "detect_language tess image_data
                 = (let script = strip (split line CHR '':'' ! 1)
                    in if script = ''Han'' then ''chi_sim''
                       else if script = ''Latin'' then ''eng''
                       else if script = ''Vietnamese'' then ''vie''
                       else ''eng'')"
    by (simp add: detect_language_def detect_language_try_def detect_language_lines_script
        del: detect_language_lines.simps)
qed

theorem detect_language_script_table_witness:
  "Image_open (example_tesseract [] (example_osd ''Han'')) ''scan''
     = Inr \<lparr>im_mode = ''RGB'', im_size = (4724, 7087)\<rparr>
   \<and> preprocess_image \<lparr>im_mode = ''RGB'', im_size = (4724, 7087)\<rparr>
     = Inr \<lparr>im_mode = ''L'', im_size = (2666, 4000)\<rparr>
   \<and> image_to_osd (example_tesseract [] (example_osd ''Han''))
        \<lparr>im_mode = ''L'', im_size = (2666, 4000)\<rparr> = Inr (example_osd ''Han'')
   \<and> split (example_osd ''Han'') (CHR 0x0A)
     = [''Page number: 0'', ''Orientation in degrees: 0'', ''Rotate: 0'',
        ''Orientation confidence: 2.50'']
       @ ''Script: Han'' # [''Script confidence: 1.20'', []]
   \<and> startswith ''Script: Han'' ''Script:''
   \<and> strip (split ''Script: Han'' CHR '':'' ! 1) = ''Han''
   \<and> detect_language (example_tesseract [] (example_osd ''Han'')) ''scan'' = ''chi_sim''"
proof -
  let ?tess = "example_tesseract [] (example_osd ''Han'')"
  let ?opened = "\<lparr>im_mode = ''RGB'', im_size = (4724, 7087)\<rparr>"
  let ?prepared = "\<lparr>im_mode = ''L'', im_size = (2666, 4000)\<rparr>"
  let ?pre = "[''Page number: 0'', ''Orientation in degrees: 0'', ''Rotate: 0'',
        ''Orientation confidence: 2.50'']"
  let ?post = "[''Script confidence: 1.20'', []]"
  have o: "Image_open ?tess ''scan'' = Inr ?opened"
    by (simp add: example_tesseract_def example_open_def)
  have d: "image_to_osd ?tess ?prepared = Inr (example_osd ''Han'')"
    by (simp add: example_tesseract_def example_to_osd_def)
  have s: "split (example_osd ''Han'') (CHR 0x0A) = ?pre @ ''Script: Han'' # ?post"
    by (simp add: example_osd_def split_def)
  have p: "\<forall>l\<in>set ?pre. \<not> startswith l ''Script:''" by (simp add: startswith_def)
  have l: "startswith ''Script: Han'' ''Script:''" by (simp add: startswith_def)
  have f: "strip (split ''Script: Han'' CHR '':'' ! 1) = ''Han''"
    by (simp add: split_def strip_def lstrip_def rstrip_def isspace_def)
  have "detect_language ?tess ''scan''
          = (let script = strip (split ''Script: Han'' CHR '':'' ! 1)
             in if script = ''Han'' then ''chi_sim''
                else if script = ''Latin'' then ''eng''
                else if script = ''Vietnamese'' then ''vie''
                else ''eng'')"
    using detect_language_script_table [of ?tess "''scan''"] o example_preprocess d s p l
    by blast
  with f have "detect_language ?tess ''scan'' = ''chi_sim''" by (simp add: Let_def)
  with o example_preprocess d s l f show ?thesis by simp
qed

end
